theory Spec2Isabelle
  imports Complex_Main
begin

section \<open>Numbers of the dashboard script\<close>

text \<open>
  The script computes on JavaScript numbers. A number is modelled as an exact real or
  one of the three special values of IEEE arithmetic. The special values follow the
  IEEE rules (division by zero, \<open>Infinity - Infinity\<close>, \<open>0 * Infinity\<close>, propagation of
  \<open>NaN\<close>). Finite values are exact: rounding and overflow of finite results are left out,
  and zero carries no sign (a zero divisor counts as \<open>+0\<close>).
\<close>

datatype jsnum = NaN | PInf | NInf | Num real

fun jsneg :: "jsnum \<Rightarrow> jsnum" where
  "jsneg NaN = NaN"
| "jsneg PInf = NInf"
| "jsneg NInf = PInf"
| "jsneg (Num x) = Num (- x)"

fun jsadd :: "jsnum \<Rightarrow> jsnum \<Rightarrow> jsnum" where
  "jsadd NaN b = NaN"
| "jsadd a NaN = NaN"
| "jsadd PInf NInf = NaN"
| "jsadd NInf PInf = NaN"
| "jsadd PInf b = PInf"
| "jsadd a PInf = PInf"
| "jsadd NInf b = NInf"
| "jsadd a NInf = NInf"
| "jsadd (Num x) (Num y) = Num (x + y)"

definition jssub :: "jsnum \<Rightarrow> jsnum \<Rightarrow> jsnum" where
  "jssub a b = jsadd a (jsneg b)"

fun jsmul :: "jsnum \<Rightarrow> jsnum \<Rightarrow> jsnum" where
  "jsmul NaN b = NaN"
| "jsmul a NaN = NaN"
| "jsmul (Num x) (Num y) = Num (x * y)"
| "jsmul (Num x) PInf = (if x = 0 then NaN else if 0 < x then PInf else NInf)"
| "jsmul (Num x) NInf = (if x = 0 then NaN else if 0 < x then NInf else PInf)"
| "jsmul PInf (Num y) = (if y = 0 then NaN else if 0 < y then PInf else NInf)"
| "jsmul NInf (Num y) = (if y = 0 then NaN else if 0 < y then NInf else PInf)"
| "jsmul PInf PInf = PInf"
| "jsmul PInf NInf = NInf"
| "jsmul NInf PInf = NInf"
| "jsmul NInf NInf = PInf"

fun jsdiv :: "jsnum \<Rightarrow> jsnum \<Rightarrow> jsnum" where
  "jsdiv NaN b = NaN"
| "jsdiv a NaN = NaN"
| "jsdiv (Num x) (Num y) =
     (if y = 0 then (if x = 0 then NaN else if 0 < x then PInf else NInf)
      else Num (x / y))"
| "jsdiv (Num x) PInf = Num 0"
| "jsdiv (Num x) NInf = Num 0"
| "jsdiv PInf (Num y) = (if 0 \<le> y then PInf else NInf)"
| "jsdiv NInf (Num y) = (if 0 \<le> y then NInf else PInf)"
| "jsdiv PInf b = NaN"
| "jsdiv NInf b = NaN"



text \<open>A number is finite when it is neither \<open>NaN\<close> nor an infinity.\<close>

fun isFinite :: "jsnum \<Rightarrow> bool" where
  "isFinite (Num x) = True"
| "isFinite a = False"

text \<open>
  Truthiness of an optional number, as tested by \<open>index === 0 && startRateOverride\<close>:
  \<open>null\<close> (here \<open>None\<close>), \<open>0\<close> and \<open>NaN\<close> are falsy.
\<close>

fun truthy :: "jsnum option \<Rightarrow> bool" where
  "truthy None = False"
| "truthy (Some NaN) = False"
| "truthy (Some (Num x)) = (x \<noteq> 0)"
| "truthy (Some a) = True"

section \<open>Data model\<close>

text \<open>
  A \<open>Date\<close> is its time value, the milliseconds since the epoch. \<open>toDateString\<close> depends
  on the time zone of the host, so it is a parameter \<open>tds\<close> of the functions that call
  it: any function from time values to calendar-day labels. \<open>utcDateString\<close> is the
  calendar of a host on UTC.
\<close>

type_synonym jsdate = int

definition utcDateString :: "jsdate \<Rightarrow> int" where
  "utcDateString t = t div 86400000"

text \<open>
  A point of the price series, as \<open>processFinancialData\<close> builds it. All price fields are
  taken to be numbers. The field \<open>open\<close> is written \<open>open'\<close>.
\<close>

record pricePoint =
  date :: jsdate
  open' :: jsnum
  high :: jsnum
  low :: jsnum
  close :: jsnum
  volume :: jsnum
  adjClose :: jsnum

text \<open>An entry \<open>{date, rate}\<close> of \<open>historicalRates\<close>.\<close>

record rateEntry =
  rdate :: jsdate
  rate :: jsnum

text \<open>An element \<open>{date, impact}\<close> of the currency-impact series.\<close>

record impactPoint =
  idate :: jsdate
  impact :: jsnum

text \<open>An element \<open>{date, value}\<close> of the fixed-rate series.\<close>

record valuePoint =
  vdate :: jsdate
  val :: jsnum

text \<open>
  The two global variables the analytics read: the object \<open>currencyRates\<close> (currency code
  to current rate) and the array \<open>historicalRates\<close>.
\<close>

record globals =
  currencyRates :: "string \<Rightarrow> jsnum option"
  historicalRates :: "rateEntry list"

text \<open>
  \<open>currencyRates[c]\<close> used as an operand: a missing key reads \<open>undefined\<close>, which
  arithmetic converts to \<open>NaN\<close>.
\<close>

definition rateOf :: "globals \<Rightarrow> string \<Rightarrow> jsnum" where
  "rateOf g c = (case currencyRates g c of None \<Rightarrow> NaN | Some x \<Rightarrow> x)"

text \<open>The exception a property read on \<open>undefined\<close> throws.\<close>

datatype error = TypeError

section \<open>Rate lookup\<close>

text \<open>One iteration of the loop of \<open>findClosestRate\<close> over the state \<open>(closestRate, minDiff)\<close>.\<close>

fun closestStep :: "jsdate \<Rightarrow> rateEntry \<Rightarrow> rateEntry \<times> int \<Rightarrow> rateEntry \<times> int" where
  "closestStep targetDate r (closestRate, minDiff) =
     (let diff = \<bar>targetDate - rdate r\<bar>
      in if diff < minDiff then (r, diff) else (closestRate, minDiff))"

definition findClosestRate :: "globals \<Rightarrow> (jsdate \<Rightarrow> 'd) \<Rightarrow> jsdate \<Rightarrow> jsnum" where
  "findClosestRate g tds targetDate =
     (case historicalRates g of
        [] \<Rightarrow> jsdiv (rateOf g ''NOK'') (rateOf g ''USD'')
      | r0 # rest \<Rightarrow>
          (case find (\<lambda>r. tds (rdate r) = tds targetDate) (historicalRates g) of
             Some exactMatch \<Rightarrow> rate exactMatch
           | None \<Rightarrow>
               rate (fst (fold (closestStep targetDate) (historicalRates g)
                                (r0, \<bar>targetDate - rdate r0\<bar>)))))"

section \<open>Currency converter\<close>

text \<open>The object \<open>{...item, open: item.open * rate, ...}\<close>.\<close>

definition scalePoint :: "jsnum \<Rightarrow> pricePoint \<Rightarrow> pricePoint" where
  "scalePoint r item =
     item\<lparr>open' := jsmul (open' item) r,
          high := jsmul (high item) r,
          low := jsmul (low item) r,
          close := jsmul (close item) r,
          adjClose := jsmul (adjClose item) r\<rparr>"

text \<open>The rate the historical branch of \<open>convertDataToCurrency\<close> picks for one point.\<close>

definition pointRate :: "globals \<Rightarrow> (jsdate \<Rightarrow> 'd) \<Rightarrow> jsnum option \<Rightarrow> nat \<Rightarrow> pricePoint \<Rightarrow> jsnum" where
  "pointRate g tds startRateOverride index item =
     (if index = 0 \<and> truthy startRateOverride
      then (case startRateOverride of Some r \<Rightarrow> r | None \<Rightarrow> NaN)
      else findClosestRate g tds (date item))"

definition convertDataToCurrency ::
  "globals \<Rightarrow> (jsdate \<Rightarrow> 'd) \<Rightarrow> pricePoint list \<Rightarrow> string \<Rightarrow> string \<Rightarrow> jsnum option \<Rightarrow> pricePoint list" where
  "convertDataToCurrency g tds data targetCurrency sourceCurrency startRateOverride =
     (if targetCurrency = sourceCurrency then data
      else if 0 < length (historicalRates g) \<and> targetCurrency = ''NOK'' \<and> sourceCurrency = ''USD''
      then map (\<lambda>(index, item). scalePoint (pointRate g tds startRateOverride index item) item)
               (enumerate 0 data)
      else (let conversionRate = jsdiv (rateOf g targetCurrency) (rateOf g sourceCurrency)
            in map (scalePoint conversionRate) data))"

section \<open>Return decomposer\<close>

definition calculateCurrencyImpactOverTime ::
  "globals \<Rightarrow> pricePoint list \<Rightarrow> string \<Rightarrow> string \<Rightarrow> impactPoint list" where
  "calculateCurrencyImpactOverTime g data targetCurrency sourceCurrency =
     (if targetCurrency = sourceCurrency
      then map (\<lambda>item. \<lparr>idate = date item, impact = Num 0\<rparr>) data
      else (let currentRate = jsdiv (rateOf g targetCurrency) (rateOf g sourceCurrency)
            in map (\<lambda>(index, item).
                 if index = 0 then \<lparr>idate = date item, impact = Num 0\<rparr>
                 else (let prevItem = data ! (index - 1);
                           localReturn = jsdiv (jssub (close item) (close prevItem)) (close prevItem);
                           currentValueInTarget = jsmul (close item) currentRate;
                           prevValueInTarget = jsmul (close prevItem) currentRate;
                           currencyImpact = jssub (jssub currentValueInTarget prevValueInTarget)
                                                  (jssub (close item) (close prevItem))
                       in \<lparr>idate = date item, impact = currencyImpact\<rparr>))
               (enumerate 0 data)))"

text \<open>
  \<open>calculateIndexWithoutCurrencyChanges\<close>. Reading \<open>data[0].date\<close> of an empty series
  throws; the two guarded exits return the empty array.
\<close>

definition calculateIndexWithoutCurrencyChanges ::
  "globals \<Rightarrow> (jsdate \<Rightarrow> 'd) \<Rightarrow> pricePoint list \<Rightarrow> string \<Rightarrow> string \<Rightarrow> error + valuePoint list" where
  "calculateIndexWithoutCurrencyChanges g tds data targetCurrency sourceCurrency =
     (if length (historicalRates g) = 0 then Inr []
      else (case data of
              [] \<Rightarrow> Inl TypeError
            | d0 # rest \<Rightarrow>
                (let startDate = date d0
                 in case find (\<lambda>r. tds (rdate r) = tds startDate) (historicalRates g) of
                      None \<Rightarrow> Inr []
                    | Some startRateData \<Rightarrow>
                        (let startRate = rate startRateData
                         in Inr (map (\<lambda>item. \<lparr>vdate = date item,
                                                val = jsmul (close item) startRate\<rparr>) data)))))"

section \<open>Statistics summarizer\<close>

definition calculateCurrencyImpact ::
  "globals \<Rightarrow> pricePoint list \<Rightarrow> string \<Rightarrow> string \<Rightarrow> error + jsnum" where
  "calculateCurrencyImpact g data targetCurrency sourceCurrency =
     (if targetCurrency = sourceCurrency then Inr (Num 0)
      else (let currencyImpactData = calculateCurrencyImpactOverTime g data targetCurrency sourceCurrency;
                totalCurrencyImpact = foldl (\<lambda>sum item. jsadd sum (impact item)) (Num 0) currencyImpactData
            in case data of
                 [] \<Rightarrow> Inl TypeError
               | d0 # rest \<Rightarrow>
                   (let startValueInCurrency =
                          jsmul (close d0) (jsdiv (rateOf g targetCurrency) (rateOf g sourceCurrency));
                        currencyImpactPercent =
                          jsmul (jsdiv totalCurrencyImpact startValueInCurrency) (Num 100)
                    in Inr currencyImpactPercent)))"


text \<open>\<open>Array.prototype.slice(start, end)\<close>.\<close>

definition slice :: "'a list \<Rightarrow> int \<Rightarrow> int \<Rightarrow> 'a list" where
  "slice xs start stop =
     (let n = int (length xs);
          k = (if start < 0 then max (n + start) 0 else min start n);
          f = (if stop < 0 then max (n + stop) 0 else min stop n)
      in take (nat (f - k)) (drop (nat k) xs))"

text \<open>
  The three percentages of one row of the performance table. \<open>performanceRow\<close> is the
  body of the \<open>periods.forEach\<close> callback of \<open>updatePerformanceTable\<close> for a period of
  \<open>days\<close> days, with the values of the row returned instead of written to the page;
  \<open>None\<close> is the period that adds no row.
\<close>

record perfRow =
  rowTotalReturn :: jsnum
  rowCurrencyImpact :: jsnum
  rowLocalReturn :: jsnum

definition performanceRow ::
  "globals \<Rightarrow> pricePoint list \<Rightarrow> pricePoint list \<Rightarrow> string \<Rightarrow> string \<Rightarrow> int \<Rightarrow> error + perfRow option" where
  "performanceRow g currentData convertedData selectedCurrency indexCurrency days =
     (let endIndex = int (length convertedData) - 1;
          startIndex = max 0 (endIndex - days)
      in if startIndex < endIndex
         then (let startPrice = close (convertedData ! nat startIndex);
                   endPrice = close (convertedData ! nat endIndex);
                   totalReturn = jsmul (jsdiv (jssub endPrice startPrice) startPrice) (Num 100)
               in case calculateCurrencyImpact g (slice currentData startIndex (endIndex + 1))
                         selectedCurrency indexCurrency of
                    Inl e \<Rightarrow> Inl e
                  | Inr currencyImpact \<Rightarrow>
                      (let localReturn = jssub totalReturn currencyImpact
                       in Inr (Some \<lparr>rowTotalReturn = totalReturn,
                                     rowCurrencyImpact = currencyImpact,
                                     rowLocalReturn = localReturn\<rparr>)))
         else Inr None)"

fun sequence_rows :: "(error + 'a) list \<Rightarrow> error + 'a list" where
  "sequence_rows [] = Inr []"
| "sequence_rows (Inl e # rs) = Inl e"
| "sequence_rows (Inr x # rs) = (case sequence_rows rs of Inl e \<Rightarrow> Inl e | Inr xs \<Rightarrow> Inr (x # xs))"

definition updatePerformanceTable ::
  "globals \<Rightarrow> (jsdate \<Rightarrow> 'd) \<Rightarrow> pricePoint list \<Rightarrow> string \<Rightarrow> string \<Rightarrow> error + perfRow option list" where
  "updatePerformanceTable g tds currentData selectedCurrency indexCurrency =
     (if length currentData = 0 then Inr []
      else (let convertedData = convertDataToCurrency g tds currentData selectedCurrency indexCurrency None
            in sequence_rows
                 (map (performanceRow g currentData convertedData selectedCurrency indexCurrency)
                      [7, 30, 90, 180, 365])))"

section \<open>The statistics in the words of the specification\<close>






text \<open>A price point with the given date and close (every other field 0), for examples.\<close>

definition pt :: "jsdate \<Rightarrow> real \<Rightarrow> pricePoint" where
  "pt d c = \<lparr>date = d, open' = Num 0, high = Num 0, low = Num 0, close = Num c,
             volume = Num 0, adjClose = Num 0\<rparr>"

text \<open>The globals with current rates \<open>{USD: 1, NOK: 10}\<close> and the given rate table.\<close>

definition usdNok :: "rateEntry list \<Rightarrow> globals" where
  "usdNok hr =
     \<lparr>currencyRates = (\<lambda>c. if c = ''USD'' then Some (Num 1)
                            else if c = ''NOK'' then Some (Num 10) else None),
      historicalRates = hr\<rparr>"

text \<open>
  The rate table of the specification's gap scenario: a rate of 10 on day 0, a rate of
  12 on day 2, nothing on day 1.
\<close>

definition gapTable :: "rateEntry list" where
  "gapTable = [\<lparr>rdate = 0, rate = Num 10\<rparr>, \<lparr>rdate = 172800000, rate = Num 12\<rparr>]"

text \<open>The globals with current rates \<open>{USD: 1, EUR: 2}\<close> and the given rate table.\<close>

definition usdEur :: "rateEntry list \<Rightarrow> globals" where
  "usdEur hr =
     \<lparr>currencyRates = (\<lambda>c. if c = ''USD'' then Some (Num 1)
                            else if c = ''EUR'' then Some (Num 2) else None),
      historicalRates = hr\<rparr>"

section \<open>Binary64 arithmetic\<close>

text \<open>
  The arithmetic above is exact on finite values. The script runs on IEEE binary64
  numbers, where every operation returns the exact result rounded to the nearest
  representable value, ties to even. \<open>rne\<close> rounds a real to the nearest integer, ties to
  even. \<open>round64\<close> rounds a real to binary64: the quantum is \<open>2\<close> to the power
  \<open>e - 52\<close>, where \<open>e\<close> is the binary exponent of the value and at least \<open>-1022\<close>
  (the subnormal range), and a result of magnitude \<open>2\<close> to the \<open>1024\<close> or more is an
  infinity. Zero carries no sign.
\<close>

definition rne :: "real \<Rightarrow> int" where
  "rne y = (let f = \<lfloor>y\<rfloor>; d = y - of_int f
            in if d < 1 / 2 then f else if 1 / 2 < d then f + 1
               else if even f then f else f + 1)"

definition round64 :: "real \<Rightarrow> jsnum" where
  "round64 x =
     (if x = 0 then Num 0
      else (let e = max \<lfloor>log 2 \<bar>x\<bar>\<rfloor> (- 1022);
                q = 2 powi (e - 52);
                y = q * of_int (rne (x / q))
            in if 2 powi 1024 \<le> \<bar>y\<bar> then (if 0 < x then PInf else NInf) else Num y))"

text \<open>
  Subtraction, multiplication and division on binary64: the exact result, rounded.
  Special values pass through.
\<close>

fun b64 :: "jsnum \<Rightarrow> jsnum" where
  "b64 (Num x) = round64 x"
| "b64 a = a"

definition sub64 :: "jsnum \<Rightarrow> jsnum \<Rightarrow> jsnum" where
  "sub64 a b = b64 (jssub a b)"

definition mul64 :: "jsnum \<Rightarrow> jsnum \<Rightarrow> jsnum" where
  "mul64 a b = b64 (jsmul a b)"

definition div64 :: "jsnum \<Rightarrow> jsnum \<Rightarrow> jsnum" where
  "div64 a b = b64 (jsdiv a b)"

text \<open>
  \<open>convertDataToCurrency\<close> and \<open>calculateCurrencyImpactOverTime\<close> once more, with every
  arithmetic operation of the source rounded to binary64; branches, guards and lookups
  are those of the definitions above.
\<close>

definition scalePoint64 :: "jsnum \<Rightarrow> pricePoint \<Rightarrow> pricePoint" where
  "scalePoint64 r item =
     item\<lparr>open' := mul64 (open' item) r,
          high := mul64 (high item) r,
          low := mul64 (low item) r,
          close := mul64 (close item) r,
          adjClose := mul64 (adjClose item) r\<rparr>"

definition findClosestRate64 :: "globals \<Rightarrow> (jsdate \<Rightarrow> 'd) \<Rightarrow> jsdate \<Rightarrow> jsnum" where
  "findClosestRate64 g tds targetDate =
     (case historicalRates g of
        [] \<Rightarrow> div64 (rateOf g ''NOK'') (rateOf g ''USD'')
      | r0 # rest \<Rightarrow>
          (case find (\<lambda>r. tds (rdate r) = tds targetDate) (historicalRates g) of
             Some exactMatch \<Rightarrow> rate exactMatch
           | None \<Rightarrow>
               rate (fst (fold (closestStep targetDate) (historicalRates g)
                                (r0, \<bar>targetDate - rdate r0\<bar>)))))"

definition pointRate64 :: "globals \<Rightarrow> (jsdate \<Rightarrow> 'd) \<Rightarrow> jsnum option \<Rightarrow> nat \<Rightarrow> pricePoint \<Rightarrow> jsnum" where
  "pointRate64 g tds startRateOverride index item =
     (if index = 0 \<and> truthy startRateOverride
      then (case startRateOverride of Some r \<Rightarrow> r | None \<Rightarrow> NaN)
      else findClosestRate64 g tds (date item))"

definition convertDataToCurrency64 ::
  "globals \<Rightarrow> (jsdate \<Rightarrow> 'd) \<Rightarrow> pricePoint list \<Rightarrow> string \<Rightarrow> string \<Rightarrow> jsnum option \<Rightarrow> pricePoint list" where
  "convertDataToCurrency64 g tds data targetCurrency sourceCurrency startRateOverride =
     (if targetCurrency = sourceCurrency then data
      else if 0 < length (historicalRates g) \<and> targetCurrency = ''NOK'' \<and> sourceCurrency = ''USD''
      then map (\<lambda>(index, item). scalePoint64 (pointRate64 g tds startRateOverride index item) item)
               (enumerate 0 data)
      else (let conversionRate = div64 (rateOf g targetCurrency) (rateOf g sourceCurrency)
            in map (scalePoint64 conversionRate) data))"

definition calculateCurrencyImpactOverTime64 ::
  "globals \<Rightarrow> pricePoint list \<Rightarrow> string \<Rightarrow> string \<Rightarrow> impactPoint list" where
  "calculateCurrencyImpactOverTime64 g data targetCurrency sourceCurrency =
     (if targetCurrency = sourceCurrency
      then map (\<lambda>item. \<lparr>idate = date item, impact = Num 0\<rparr>) data
      else (let currentRate = div64 (rateOf g targetCurrency) (rateOf g sourceCurrency)
            in map (\<lambda>(index, item).
                 if index = 0 then \<lparr>idate = date item, impact = Num 0\<rparr>
                 else (let prevItem = data ! (index - 1);
                           localReturn = div64 (sub64 (close item) (close prevItem)) (close prevItem);
                           currentValueInTarget = mul64 (close item) currentRate;
                           prevValueInTarget = mul64 (close prevItem) currentRate;
                           currencyImpact = sub64 (sub64 currentValueInTarget prevValueInTarget)
                                                  (sub64 (close item) (close prevItem))
                       in \<lparr>idate = date item, impact = currencyImpact\<rparr>))
               (enumerate 0 data)))"

text \<open>The globals with current rates \<open>{USD: 1, NOK: r}\<close> and an empty rate table.\<close>

definition usdNokAt :: "real \<Rightarrow> globals" where
  "usdNokAt r =
     \<lparr>currencyRates = (\<lambda>c. if c = ''USD'' then Some (Num 1)
                            else if c = ''NOK'' then Some (Num r) else None),
      historicalRates = []\<rparr>"

text \<open>
  A magnitude far from the ends of the binary64 range: between \<open>2\<close> to the \<open>-300\<close> and
  \<open>2\<close> to the \<open>300\<close>.
\<close>

definition moderate :: "real \<Rightarrow> bool" where
  "moderate x = (2 powi (- 300) \<le> \<bar>x\<bar> \<and> \<bar>x\<bar> \<le> 2 powi 300)"

section \<open>Properties\<close>

lemma scalePoint_date: "date (scalePoint r item) = date item"
  by (simp add: scalePoint_def)

lemma scalePoint_volume: "volume (scalePoint r item) = volume item"
  by (simp add: scalePoint_def)

lemma map_enumerate_proj:
  assumes "\<And>i x. h (f i x) = h x"
  shows "map (\<lambda>p. h (case p of (i, x) \<Rightarrow> f i x)) (enumerate n xs) = map h xs"
  using assms by (induction xs arbitrary: n) simp_all

text \<open>
  C6. When the source and the target currency are equal, \<open>convertDataToCurrency\<close> returns
  its input, and the currency-impact series has one element per point, each with
  impact 0.
\<close>

theorem same_currency_identity:
  "convertDataToCurrency g tds data c c startRateOverride = data \<and>
   map impact (calculateCurrencyImpactOverTime g data c c) = replicate (length data) (Num 0) \<and>
   map idate (calculateCurrencyImpactOverTime g data c c) = map date data"
  by (simp add: convertDataToCurrency_def calculateCurrencyImpactOverTime_def
        map_replicate_const comp_def)

text \<open>
  C9. The output of \<open>convertDataToCurrency\<close> has the length of its input, the same dates
  in the same order and the same volumes; the function reads its input and builds new
  points, so the input series is the same before and after.
\<close>

theorem convert_frame:
  "length (convertDataToCurrency g tds data t s ov) = length data \<and>
   map date (convertDataToCurrency g tds data t s ov) = map date data \<and>
   map volume (convertDataToCurrency g tds data t s ov) = map volume data"
  by (simp add: convertDataToCurrency_def Let_def comp_def scalePoint_date scalePoint_volume
        map_enumerate_proj [where h = date] map_enumerate_proj [where h = volume])

subsection \<open>Rate lookup\<close>

lemma fold_closest_inv:
  "fold (closestStep t) xs (c, \<bar>t - rdate c\<bar>) = (c', m') \<Longrightarrow>
   m' = \<bar>t - rdate c'\<bar> \<and> c' \<in> set (c # xs) \<and> (\<forall>x\<in>set (c # xs). m' \<le> \<bar>t - rdate x\<bar>)"
proof (induction xs arbitrary: c)
  case Nil
  then show ?case by auto
next
  case (Cons x xs)
  show ?case
  proof (cases "\<bar>t - rdate x\<bar> < \<bar>t - rdate c\<bar>")
    case True
    with Cons.prems have "fold (closestStep t) xs (x, \<bar>t - rdate x\<bar>) = (c', m')"
      by simp
    from Cons.IH [OF this] True show ?thesis by auto
  next
    case False
    with Cons.prems have "fold (closestStep t) xs (c, \<bar>t - rdate c\<bar>) = (c', m')"
      by simp
    from Cons.IH [OF this] False show ?thesis by auto
  qed
qed

lemma fold_closest_tie:
  "fold (closestStep t) xs (c, \<bar>t - rdate c\<bar>) = (c', m') \<Longrightarrow>
   sorted (map rdate (c # xs)) \<Longrightarrow>
   (\<forall>x\<in>set (c # xs). \<bar>t - rdate x\<bar> = m' \<longrightarrow> rdate c' \<le> rdate x)"
proof (induction xs arbitrary: c)
  case Nil
  then show ?case by auto
next
  case (Cons x xs)
  show ?case
  proof (cases "\<bar>t - rdate x\<bar> < \<bar>t - rdate c\<bar>")
    case True
    with Cons.prems have f: "fold (closestStep t) xs (x, \<bar>t - rdate x\<bar>) = (c', m')"
      by simp
    from Cons.prems have s: "sorted (map rdate (x # xs))" by simp
    from fold_closest_inv [OF f] have "m' \<le> \<bar>t - rdate x\<bar>" by simp
    with True have "\<bar>t - rdate c\<bar> \<noteq> m'" by simp
    with Cons.IH [OF f s] show ?thesis by simp
  next
    case False
    with Cons.prems have f: "fold (closestStep t) xs (c, \<bar>t - rdate c\<bar>) = (c', m')"
      by simp
    from Cons.prems have s: "sorted (map rdate (c # xs))" and le: "rdate c \<le> rdate x" by simp_all
    from fold_closest_inv [OF f] have m: "m' \<le> \<bar>t - rdate c\<bar>" by simp
    have "rdate c' \<le> rdate x" if "\<bar>t - rdate x\<bar> = m'"
    proof -
      from that False m have "\<bar>t - rdate c\<bar> = m'" by simp
      with Cons.IH [OF f s] have "rdate c' \<le> rdate c" by simp
      with le show ?thesis by simp
    qed
    with Cons.IH [OF f s] show ?thesis by simp
  qed
qed

lemma fold_closest_first:
  "fold (closestStep t) xs (c, \<bar>t - rdate c\<bar>) = (c', m') \<Longrightarrow>
   \<exists>ys zs. c # xs = ys @ c' # zs \<and> (\<forall>y\<in>set ys. m' < \<bar>t - rdate y\<bar>)"
proof (induction xs arbitrary: c)
  case Nil
  then have "[c] = [] @ c' # [] \<and> (\<forall>y\<in>set []. m' < \<bar>t - rdate y\<bar>)" by simp
  then show ?case by blast
next
  case (Cons x xs)
  show ?case
  proof (cases "\<bar>t - rdate x\<bar> < \<bar>t - rdate c\<bar>")
    case True
    with Cons.prems have f: "fold (closestStep t) xs (x, \<bar>t - rdate x\<bar>) = (c', m')"
      by simp
    from Cons.IH [OF f] obtain ys zs
      where s: "x # xs = ys @ c' # zs" and far: "\<forall>y\<in>set ys. m' < \<bar>t - rdate y\<bar>"
      by blast
    from fold_closest_inv [OF f] have "m' \<le> \<bar>t - rdate x\<bar>" by simp
    with True have "m' < \<bar>t - rdate c\<bar>" by simp
    with s far have "c # x # xs = (c # ys) @ c' # zs \<and> (\<forall>y\<in>set (c # ys). m' < \<bar>t - rdate y\<bar>)"
      by simp
    then show ?thesis by blast
  next
    case False
    with Cons.prems have f: "fold (closestStep t) xs (c, \<bar>t - rdate c\<bar>) = (c', m')"
      by simp
    from Cons.IH [OF f] obtain ys zs
      where s: "c # xs = ys @ c' # zs" and far: "\<forall>y\<in>set ys. m' < \<bar>t - rdate y\<bar>"
      by blast
    show ?thesis
    proof (cases ys)
      case Nil
      with s have "c # x # xs = [] @ c' # (x # xs)" by simp
      then show ?thesis by (metis empty_iff list.set(1))
    next
      case (Cons y ys')
      with s have yc: "y = c" and xs: "xs = ys' @ c' # zs" by simp_all
      from far Cons yc have "m' < \<bar>t - rdate c\<bar>" by simp
      with False have "m' < \<bar>t - rdate x\<bar>" by simp
      with far Cons yc xs
      have "c # x # xs = (c # x # ys') @ c' # zs \<and> (\<forall>y\<in>set (c # x # ys'). m' < \<bar>t - rdate y\<bar>)"
        by simp
      then show ?thesis by blast
    qed
  qed
qed

lemma find_Some_split:
  "find P xs = Some e \<Longrightarrow> \<exists>ys zs. xs = ys @ e # zs \<and> P e \<and> (\<forall>y\<in>set ys. \<not> P y)"
proof (induction xs)
  case Nil
  then show ?case by simp
next
  case (Cons x xs)
  show ?case
  proof (cases "P x")
    case True
    with Cons.prems have "x = e" by simp
    with True have "x # xs = [] @ e # xs \<and> P e \<and> (\<forall>y\<in>set []. \<not> P y)" by simp
    then show ?thesis by blast
  next
    case False
    with Cons.prems have "find P xs = Some e" by simp
    from Cons.IH [OF this] obtain ys zs
      where "xs = ys @ e # zs" "P e" "\<forall>y\<in>set ys. \<not> P y" by blast
    with False have "x # xs = (x # ys) @ e # zs \<and> P e \<and> (\<forall>y\<in>set (x # ys). \<not> P y)" by simp
    then show ?thesis by blast
  qed
qed

text \<open>
  C3, as stated, fails: in the gap table the query at noon of day 1 is one calendar day
  away from both entries, so the earlier entry (rate 10) is due; the code measures the
  distance between time values, finds the entry of day 2 twelve hours nearer, and
  returns 12.
\<close>

theorem nearest_in_days_counterexample:
  "rdate (gapTable ! 0) < rdate (gapTable ! 1) \<and>
   \<bar>utcDateString 129600000 - utcDateString (rdate (gapTable ! 0))\<bar> = 1 \<and>
   \<bar>utcDateString 129600000 - utcDateString (rdate (gapTable ! 1))\<bar> = 1 \<and>
   rate (gapTable ! 0) = Num 10 \<and>
   findClosestRate (usdNok gapTable) utcDateString 129600000 = Num 12"
  by (simp add: findClosestRate_def usdNok_def gapTable_def utcDateString_def)

text \<open>
  C3, amended. For a non-empty rate table and every query date: if some entry falls on
  the calendar day of the query, \<open>findClosestRate\<close> returns the rate of the first such
  entry of the table. Otherwise it returns the rate of an entry whose time value is at
  minimum absolute distance, in milliseconds, from the time value of the query; that
  entry is the first of the table at that distance, and when the table is sorted
  ascending by date it is the earliest-dated of the entries at that distance.
\<close>

theorem findClosestRate_first_nearest:
  assumes ne: "historicalRates g \<noteq> []"
  shows "((\<exists>e\<in>set (historicalRates g). tds (rdate e) = tds d) \<longrightarrow>
           (\<exists>ys e zs. historicalRates g = ys @ e # zs \<and> tds (rdate e) = tds d \<and>
              (\<forall>y\<in>set ys. tds (rdate y) \<noteq> tds d) \<and> findClosestRate g tds d = rate e)) \<and>
         (\<not> (\<exists>e\<in>set (historicalRates g). tds (rdate e) = tds d) \<longrightarrow>
           (\<exists>ys e zs. historicalRates g = ys @ e # zs \<and> findClosestRate g tds d = rate e \<and>
              (\<forall>y\<in>set ys. \<bar>d - rdate e\<bar> < \<bar>d - rdate y\<bar>) \<and>
              (\<forall>z\<in>set zs. \<bar>d - rdate e\<bar> \<le> \<bar>d - rdate z\<bar>) \<and>
              (sorted (map rdate (historicalRates g)) \<longrightarrow>
                 (\<forall>x\<in>set (historicalRates g). \<bar>d - rdate x\<bar> = \<bar>d - rdate e\<bar> \<longrightarrow> rdate e \<le> rdate x))))"
proof -
  from ne obtain r0 rest where hr: "historicalRates g = r0 # rest"
    by (cases "historicalRates g") auto
  let ?P = "\<lambda>r. tds (rdate r) = tds d"
  show ?thesis
  proof (cases "find ?P (historicalRates g)")
    case (Some e)
    from find_Some_split [OF Some] obtain ys zs
      where sp: "historicalRates g = ys @ e # zs" "?P e" "\<forall>y\<in>set ys. \<not> ?P y" by blast
    from Some hr have "findClosestRate g tds d = rate e"
      by (simp add: findClosestRate_def)
    with sp have "\<exists>ys e zs. historicalRates g = ys @ e # zs \<and> ?P e \<and>
        (\<forall>y\<in>set ys. \<not> ?P y) \<and> findClosestRate g tds d = rate e"
      by blast
    moreover from sp have "\<exists>e\<in>set (historicalRates g). ?P e" by auto
    ultimately show ?thesis by blast
  next
    case None
    then have no: "\<not> (\<exists>e\<in>set (historicalRates g). ?P e)"
      by (simp add: find_None_iff)
    obtain c' m' where f: "fold (closestStep d) rest (r0, \<bar>d - rdate r0\<bar>) = (c', m')"
      by (cases "fold (closestStep d) rest (r0, \<bar>d - rdate r0\<bar>)") auto
    from None hr f have res: "findClosestRate g tds d = rate c'"
      by (simp add: findClosestRate_def)
    from fold_closest_inv [OF f]
    have m: "m' = \<bar>d - rdate c'\<bar>" and mn: "\<forall>x\<in>set (r0 # rest). m' \<le> \<bar>d - rdate x\<bar>"
      by blast+
    from fold_closest_first [OF f] obtain ys zs
      where sp: "r0 # rest = ys @ c' # zs" and far: "\<forall>y\<in>set ys. m' < \<bar>d - rdate y\<bar>"
      by blast
    from sp have "set zs \<subseteq> set (r0 # rest)" by auto
    with mn have near: "\<forall>z\<in>set zs. m' \<le> \<bar>d - rdate z\<bar>" by blast
    have tie: "sorted (map rdate (historicalRates g)) \<longrightarrow>
        (\<forall>x\<in>set (historicalRates g). \<bar>d - rdate x\<bar> = \<bar>d - rdate c'\<bar> \<longrightarrow> rdate c' \<le> rdate x)"
      using fold_closest_tie [OF f] hr m by simp
    from sp hr have "historicalRates g = ys @ c' # zs" by simp
    with res far near tie m
    have "\<exists>ys e zs. historicalRates g = ys @ e # zs \<and> findClosestRate g tds d = rate e \<and>
              (\<forall>y\<in>set ys. \<bar>d - rdate e\<bar> < \<bar>d - rdate y\<bar>) \<and>
              (\<forall>z\<in>set zs. \<bar>d - rdate e\<bar> \<le> \<bar>d - rdate z\<bar>) \<and>
              (sorted (map rdate (historicalRates g)) \<longrightarrow>
                 (\<forall>x\<in>set (historicalRates g). \<bar>d - rdate x\<bar> = \<bar>d - rdate e\<bar> \<longrightarrow> rdate e \<le> rdate x))"
      by blast
    with no show ?thesis by blast
  qed
qed

theorem findClosestRate_first_nearest_witness:
  "historicalRates (usdNok gapTable) \<noteq> [] \<and>
   sorted (map rdate (historicalRates (usdNok gapTable))) \<and>
   findClosestRate (usdNok gapTable) utcDateString 86400000 = Num 10 \<and>
   findClosestRate (usdNok gapTable) utcDateString 129600000 = Num 12 \<and>
   findClosestRate (usdNok gapTable) utcDateString 172800000 = Num 12"
proof -
  have ne: "historicalRates (usdNok gapTable) \<noteq> []"
    by (simp add: usdNok_def gapTable_def)
  have srt: "sorted (map rdate (historicalRates (usdNok gapTable)))"
    by (simp add: usdNok_def gapTable_def)
  note th = findClosestRate_first_nearest [OF ne, of utcDateString 86400000]
  show ?thesis
    using ne srt th
    by (simp add: findClosestRate_def usdNok_def gapTable_def utcDateString_def)
qed

subsection \<open>Rounding to binary64\<close>

lemma rne_of_int: "rne (of_int n) = n"
  by (simp add: rne_def)

lemma rne_error: "\<bar>of_int (rne y) - y\<bar> \<le> 1 / 2"
  unfolding rne_def Let_def by (auto; linarith)

lemma floor_log2_binade:
  assumes "x \<noteq> 0"
  shows "2 powi \<lfloor>log 2 \<bar>x\<bar>\<rfloor> \<le> \<bar>x\<bar> \<and> \<bar>x\<bar> < 2 powi (\<lfloor>log 2 \<bar>x\<bar>\<rfloor> + 1)"
proof -
  from assms have pos: "0 < \<bar>x\<bar>" by simp
  have "\<lfloor>log 2 \<bar>x\<bar>\<rfloor> = \<lfloor>log 2 \<bar>x\<bar>\<rfloor>" ..
  then have "2 powr real_of_int \<lfloor>log 2 \<bar>x\<bar>\<rfloor> \<le> \<bar>x\<bar> \<and>
             \<bar>x\<bar> < 2 powr (real_of_int \<lfloor>log 2 \<bar>x\<bar>\<rfloor> + 1)"
    using floor_log_eq_powr_iff [OF pos, of 2 "\<lfloor>log 2 \<bar>x\<bar>\<rfloor>"] by simp
  moreover have "real_of_int \<lfloor>log 2 \<bar>x\<bar>\<rfloor> + 1 = real_of_int (\<lfloor>log 2 \<bar>x\<bar>\<rfloor> + 1)" by simp
  ultimately show ?thesis
    by (simp only: powr_real_of_int' [of 2, simplified])
qed

lemma floor_log2_unique:
  assumes "2 powi e \<le> \<bar>x\<bar>" and "\<bar>x\<bar> < 2 powi (e + 1)"
  shows "\<lfloor>log 2 \<bar>x\<bar>\<rfloor> = e"
proof -
  have "0 < (2::real) powi e" by simp
  with assms have pos: "0 < \<bar>x\<bar>" by linarith
  have "2 powr real_of_int e \<le> \<bar>x\<bar> \<and> \<bar>x\<bar> < 2 powr (real_of_int e + 1)"
  proof -
    have "real_of_int e + 1 = real_of_int (e + 1)" by simp
    with assms show ?thesis by (simp only: powr_real_of_int' [of 2, simplified])
  qed
  then show ?thesis
    using floor_log_eq_powr_iff [OF pos, of 2 e] by simp
qed

lemma round64_binade:
  assumes "2 powi e \<le> \<bar>x\<bar>" and "\<bar>x\<bar> < 2 powi (e + 1)" and "- 1022 \<le> e"
  shows "round64 x =
         (if 2 powi 1024 \<le> \<bar>2 powi (e - 52) * real_of_int (rne (x / 2 powi (e - 52)))\<bar>
          then (if 0 < x then PInf else NInf)
          else Num (2 powi (e - 52) * of_int (rne (x / 2 powi (e - 52)))))"
proof -
  have "0 < (2::real) powi e" by simp
  with assms(1) have "0 < \<bar>x\<bar>" by linarith
  then have "x \<noteq> 0" by simp
  moreover from assms have "max \<lfloor>log 2 \<bar>x\<bar>\<rfloor> (- 1022) = e"
    by (simp add: floor_log2_unique)
  ultimately show ?thesis by (simp add: round64_def Let_def)
qed

lemma round64_rel:
  assumes lo: "2 powi (- 1022) \<le> \<bar>x\<bar>" and hi: "\<bar>x\<bar> \<le> 2 powi 1023"
  shows "\<exists>\<delta>. \<bar>\<delta>\<bar> \<le> 2 powi (- 53) \<and> round64 x = Num (x * (1 + \<delta>))"
proof -
  define e where "e = \<lfloor>log 2 \<bar>x\<bar>\<rfloor>"
  define q :: real where "q = 2 powi (e - 52)"
  define y where "y = q * of_int (rne (x / q))"
  have "0 < (2::real) powi (- 1022)" by simp
  with lo have x0: "x \<noteq> 0" by auto
  from floor_log2_binade [OF x0]
  have b1: "2 powi e \<le> \<bar>x\<bar>" and b2: "\<bar>x\<bar> < 2 powi (e + 1)" by (simp_all add: e_def)
  have e_lo: "- 1022 \<le> e"
  proof (rule ccontr)
    assume "\<not> - 1022 \<le> e"
    then have "e + 1 \<le> - 1022" by simp
    then have "(2::real) powi (e + 1) \<le> 2 powi (- 1022)"
      by (intro power_int_increasing) simp_all
    with b2 lo show False by linarith
  qed
  have q0: "0 < q" by (simp add: q_def)
  have "y - x = q * (of_int (rne (x / q)) - x / q)"
    using q0 by (simp add: y_def algebra_simps)
  then have "\<bar>y - x\<bar> = q * \<bar>of_int (rne (x / q)) - x / q\<bar>"
    using q0 by (simp add: abs_mult)
  also have "\<dots> \<le> q * (1 / 2)"
    using q0 rne_error [of "x / q"] by (intro mult_left_mono) simp_all
  also have "q * (1 / 2) = 2 powi (- 53) * 2 powi e"
  proof -
    have "(2::real) powi (- 53) * 2 powi e = 2 powi (- 53 + e)"
      by (rule power_int_add [symmetric]) simp
    also have "- 53 + e = (e - 52) + (- 1)" by simp
    also have "(2::real) powi ((e - 52) + (- 1)) = 2 powi (e - 52) * 2 powi (- 1)"
      by (rule power_int_add) simp
    finally show ?thesis by (simp add: q_def)
  qed
  also have "\<dots> \<le> 2 powi (- 53) * \<bar>x\<bar>"
    using b1 by (intro mult_left_mono) simp_all
  finally have err: "\<bar>y - x\<bar> \<le> 2 powi (- 53) * \<bar>x\<bar>" .
  define \<delta> where "\<delta> = (y - x) / x"
  have d: "\<bar>\<delta>\<bar> \<le> 2 powi (- 53)"
  proof -
    have "\<bar>\<delta>\<bar> = \<bar>y - x\<bar> / \<bar>x\<bar>" by (simp add: \<delta>_def)
    also have "\<dots> \<le> (2 powi (- 53) * \<bar>x\<bar>) / \<bar>x\<bar>"
      using err by (intro divide_right_mono) simp_all
    also have "\<dots> = 2 powi (- 53)" using x0 by simp
    finally show ?thesis .
  qed
  have yx: "y = x * (1 + \<delta>)"
    using x0 by (simp add: \<delta>_def field_simps)
  have "\<bar>y\<bar> = \<bar>x\<bar> * \<bar>1 + \<delta>\<bar>" by (simp add: yx abs_mult)
  also have "\<dots> \<le> 2 powi 1023 * \<bar>1 + \<delta>\<bar>"
    using hi by (intro mult_right_mono) simp_all
  also have "\<dots> < 2 powi 1023 * 2"
  proof -
    have "(2::real) powi (- 53) < 1" by (simp add: power_int_minus)
    with d have "\<bar>1 + \<delta>\<bar> < 2" by linarith
    then show ?thesis by (intro mult_strict_left_mono) simp_all
  qed
  also have "(2::real) powi 1023 * 2 = 2 powi 1024" by simp
  finally have no_ovf: "\<not> 2 powi 1024 \<le> \<bar>y\<bar>" by simp
  have "round64 x = Num y"
    using round64_binade [OF b1 b2 e_lo] no_ovf by (simp add: y_def q_def)
  with d yx show ?thesis by auto
qed

lemma round64_exact:
  assumes x: "x = of_int m * 2 powi k" and m: "\<bar>m\<bar> < 2 ^ 53" and k: "- 1074 \<le> k"
    and fin: "\<bar>x\<bar> < 2 powi 1024"
  shows "round64 x = Num x"
proof (cases "x = 0")
  case True
  then show ?thesis by (simp add: round64_def)
next
  case False
  define e0 where "e0 = \<lfloor>log 2 \<bar>x\<bar>\<rfloor>"
  define e where "e = max e0 (- 1022)"
  define q :: real where "q = 2 powi (e - 52)"
  from floor_log2_binade [OF False] have b1: "2 powi e0 \<le> \<bar>x\<bar>" by (simp add: e0_def)
  have "\<bar>x\<bar> = real_of_int \<bar>m\<bar> * 2 powi k" by (simp add: x abs_mult)
  also have "\<dots> < 2 ^ 53 * 2 powi k"
  proof -
    from m have "real_of_int \<bar>m\<bar> < 2 ^ 53" by (metis of_int_less_numeral_power_cancel_iff)
    then show ?thesis by (intro mult_strict_right_mono) simp_all
  qed
  also have "(2::real) ^ 53 * 2 powi k = 2 powi (53 + k)"
    by (subst power_int_add) simp_all
  finally have "\<bar>x\<bar> < 2 powi (53 + k)" .
  with b1 have lt: "(2::real) powi e0 < 2 powi (53 + k)" by linarith
  have "e0 < 53 + k"
  proof (rule ccontr)
    assume "\<not> e0 < 53 + k"
    then have "(2::real) powi (53 + k) \<le> 2 powi e0"
      by (intro power_int_increasing) simp_all
    with lt show False by simp
  qed
  with k have ek: "e - 52 \<le> k" by (simp add: e_def)
  define n where "n = nat (k - (e - 52))"
  have "x / q = real_of_int m * (2 powi k / 2 powi (e - 52))" by (simp add: x q_def)
  also have "(2::real) powi k / 2 powi (e - 52) = 2 powi (k - (e - 52))"
    by (rule power_int_diff [symmetric]) simp
  also have "\<dots> = 2 ^ n"
    using ek by (simp add: n_def power_int_nonneg_exp)
  finally have xq: "x / q = real_of_int (m * 2 ^ n)" by simp
  have q0: "q \<noteq> 0" by (simp add: q_def)
  have "q * real_of_int (rne (x / q)) = q * (x / q)"
    by (simp only: xq rne_of_int)
  also have "\<dots> = x" using q0 by simp
  finally have y: "q * real_of_int (rne (x / q)) = x" .
  from False fin show ?thesis
    unfolding round64_def Let_def e0_def [symmetric] e_def [symmetric] q_def [symmetric] y
    by simp
qed

lemma round64_numeral:
  "numeral w < (2::int) ^ 53 \<Longrightarrow> round64 (numeral w) = Num (numeral w)"
proof -
  assume a: "numeral w < (2::int) ^ 53"
  then have "\<bar>numeral w :: int\<bar> < 2 ^ 53" by simp
  moreover have "(numeral w :: real) = of_int (numeral w) * 2 powi 0" by simp
  moreover have "\<bar>numeral w :: real\<bar> < 2 powi 1024"
  proof -
    from a have "real_of_int (numeral w) < real_of_int (2 ^ 53)" by (simp only: of_int_less_iff)
    then have "(numeral w :: real) < 2 ^ 53" by simp
    also have "\<dots> < 2 powi 1024" by simp
    finally show ?thesis by simp
  qed
  ultimately show ?thesis by (intro round64_exact [where m = "numeral w" and k = 0]) simp_all
qed

subsection \<open>Currency impact series\<close>

lemma isFinite_Num: "isFinite x \<Longrightarrow> \<exists>c. x = Num c"
  by (cases x) simp_all

lemma impact_algebra:
  "jssub (jssub (jsmul (Num ci) (Num r)) (jsmul (Num cp) (Num r))) (jssub (Num ci) (Num cp)) =
   jsmul (jssub (Num r) (Num 1)) (jssub (Num ci) (Num cp))"
  by (simp add: jssub_def algebra_simps)

lemma impact_exact_series:
  assumes ts: "t \<noteq> s" and ne: "data \<noteq> []"
    and rt: "currencyRates g t = Some (Num a)"
    and rs: "currencyRates g s = Some (Num b)" and b0: "b \<noteq> 0"
    and fin: "\<forall>p\<in>set data. isFinite (close p)"
  shows "length (calculateCurrencyImpactOverTime g data t s) = length data \<and>
         impact (calculateCurrencyImpactOverTime g data t s ! 0) = Num 0 \<and>
         (\<forall>i. 1 \<le> i \<and> i < length data \<longrightarrow>
            impact (calculateCurrencyImpactOverTime g data t s ! i) =
            jsmul (jssub (jsdiv (rateOf g t) (rateOf g s)) (Num 1))
                  (jssub (close (data ! i)) (close (data ! (i - 1)))))"
proof -
  let ?out = "calculateCurrencyImpactOverTime g data t s"
  have len: "length ?out = length data"
    using ts by (simp add: calculateCurrencyImpactOverTime_def Let_def)
  from ne have pos: "0 < length data" by simp
  have first: "impact (?out ! 0) = Num 0"
    using ts pos by (simp add: calculateCurrencyImpactOverTime_def Let_def nth_enumerate_eq)
  have r: "jsdiv (rateOf g t) (rateOf g s) = Num (a / b)"
    using rt rs b0 by (simp add: rateOf_def)
  have rest: "impact (?out ! i) =
      jsmul (jssub (jsdiv (rateOf g t) (rateOf g s)) (Num 1))
            (jssub (close (data ! i)) (close (data ! (i - 1))))"
    if i: "1 \<le> i" "i < length data" for i
  proof -
    from i fin obtain ci where ci: "close (data ! i) = Num ci"
      using isFinite_Num nth_mem by blast
    from i have "i - 1 < length data" by simp
    with fin obtain cp where cp: "close (data ! (i - 1)) = Num cp"
      using isFinite_Num nth_mem by blast
    from i ts have "impact (?out ! i) =
        jssub (jssub (jsmul (close (data ! i)) (jsdiv (rateOf g t) (rateOf g s)))
                     (jsmul (close (data ! (i - 1))) (jsdiv (rateOf g t) (rateOf g s))))
              (jssub (close (data ! i)) (close (data ! (i - 1))))"
      by (simp add: calculateCurrencyImpactOverTime_def Let_def nth_enumerate_eq)
    then show ?thesis
      unfolding r ci cp by (simp only: impact_algebra)
  qed
  from len first rest show ?thesis by blast
qed

lemma round64_half: "round64 (21 / 2) = Num (21 / 2)" "round64 (19 / 2) = Num (19 / 2)"
  by (rule round64_exact [where m = 21 and k = "- 1"], simp_all add: power_int_minus)
     (rule round64_exact [where m = 19 and k = "- 1"], simp_all add: power_int_minus)

lemma round64_e16:
  "round64 105000000000000000 = Num 105000000000000000"
  by (rule round64_exact [where m = 6562500000000000 and k = 4]) simp_all

lemma round64_e16_21: "round64 105000000000000021 = Num 105000000000000016"
  by (subst round64_binade [where e = 56]) (simp_all add: rne_def Let_def)

text \<open>
  C1, as stated, fails: for the closes \<open>1e16\<close> and \<open>1e16 + 2\<close> and the current rate 10.5,
  the code's \<open>impact[1]\<close> is 14, and \<open>(r - 1) * (close[1] - close[0])\<close> is 19 (the product
  \<open>(1e16 + 2) * 10.5\<close> rounds down by 5).
\<close>

theorem impact_rounding_counterexample:
  "impact (calculateCurrencyImpactOverTime64 (usdNokAt (21 / 2))
             [pt 0 10000000000000000, pt 86400000 10000000000000002] ''NOK'' ''USD'' ! 1) = Num 14 \<and>
   mul64 (sub64 (div64 (rateOf (usdNokAt (21 / 2)) ''NOK'') (rateOf (usdNokAt (21 / 2)) ''USD'')) (Num 1))
         (sub64 (close ([pt 0 10000000000000000, pt 86400000 10000000000000002] ! 1))
                (close ([pt 0 10000000000000000, pt 86400000 10000000000000002] ! 0))) = Num 19"
  by (simp add: calculateCurrencyImpactOverTime64_def Let_def usdNokAt_def rateOf_def pt_def
        div64_def mul64_def sub64_def jssub_def round64_half round64_e16 round64_e16_21
        round64_numeral)

lemma impact64_nth:
  assumes ts: "t \<noteq> s" and i: "1 \<le> i" "i < length data"
  shows "impact (calculateCurrencyImpactOverTime64 g data t s ! i) =
         sub64 (sub64 (mul64 (close (data ! i)) (div64 (rateOf g t) (rateOf g s)))
                      (mul64 (close (data ! (i - 1))) (div64 (rateOf g t) (rateOf g s))))
               (sub64 (close (data ! i)) (close (data ! (i - 1))))"
  using ts i by (simp add: calculateCurrencyImpactOverTime64_def Let_def nth_enumerate_eq)

lemma impact64_first:
  assumes ts: "t \<noteq> s" and ne: "data \<noteq> []"
  shows "length (calculateCurrencyImpactOverTime64 g data t s) = length data \<and>
         impact (calculateCurrencyImpactOverTime64 g data t s ! 0) = Num 0"
  using ts ne by (simp add: calculateCurrencyImpactOverTime64_def Let_def nth_enumerate_eq)

text \<open>
  C1, amended. For a series with at least one point and a pair with different
  currencies, the impact series has one element per point, \<open>impact[0] = 0\<close>, and for
  \<open>i \<ge> 1\<close> \<open>impact[i]\<close> is the binary64 value of
  \<open>(close[i] * r - close[i-1] * r) - (close[i] - close[i-1])\<close>, each operation rounded,
  with \<open>r = currencyRates[target] / currencyRates[source]\<close>, the current rate. In exact
  arithmetic (finite closes, numeric rates, source rate not 0) that expression is
  \<open>(r - 1) * (close[i] - close[i-1])\<close>.
\<close>

theorem currency_impact_rounded:
  assumes ts: "t \<noteq> s" and ne: "data \<noteq> []"
  shows "length (calculateCurrencyImpactOverTime64 g data t s) = length data \<and>
         impact (calculateCurrencyImpactOverTime64 g data t s ! 0) = Num 0 \<and>
         (\<forall>i. 1 \<le> i \<and> i < length data \<longrightarrow>
            impact (calculateCurrencyImpactOverTime64 g data t s ! i) =
            sub64 (sub64 (mul64 (close (data ! i)) (div64 (rateOf g t) (rateOf g s)))
                         (mul64 (close (data ! (i - 1))) (div64 (rateOf g t) (rateOf g s))))
                  (sub64 (close (data ! i)) (close (data ! (i - 1))))) \<and>
         (currencyRates g t = Some (Num a) \<and> currencyRates g s = Some (Num b) \<and> b \<noteq> 0 \<and>
          (\<forall>p\<in>set data. isFinite (close p)) \<longrightarrow>
            (\<forall>i. 1 \<le> i \<and> i < length data \<longrightarrow>
               impact (calculateCurrencyImpactOverTime g data t s ! i) =
               jsmul (jssub (jsdiv (rateOf g t) (rateOf g s)) (Num 1))
                     (jssub (close (data ! i)) (close (data ! (i - 1))))))"
  using impact64_first [OF ts ne] impact64_nth [OF ts] impact_exact_series [OF ts ne]
  by blast

theorem currency_impact_rounded_witness:
  "impact (calculateCurrencyImpactOverTime64 (usdNok []) [pt 0 100, pt 86400000 110] ''NOK'' ''USD'' ! 0) = Num 0 \<and>
   impact (calculateCurrencyImpactOverTime64 (usdNok []) [pt 0 100, pt 86400000 110] ''NOK'' ''USD'' ! 1) = Num 90 \<and>
   impact (calculateCurrencyImpactOverTime (usdNok []) [pt 0 100, pt 86400000 110] ''NOK'' ''USD'' ! 1) = Num 90"
proof -
  have ts: "''NOK'' \<noteq> ''USD''" by simp
  have ne: "[pt 0 100, pt 86400000 110] \<noteq> []" by simp
  from currency_impact_rounded [OF ts ne, of "usdNok []" 10 1]
  show ?thesis
    by (simp add: rateOf_def usdNok_def pt_def jssub_def sub64_def mul64_def div64_def
          round64_numeral)
qed

subsection \<open>Round trip on the static path\<close>

lemma round64_pow1024: "round64 (2 ^ 1024) = PInf"
  by (subst round64_binade [where e = 1024]) (simp_all add: rne_def Let_def)

lemma round64_2: "round64 2 = Num 2" "round64 (1 / 2) = Num (1 / 2)"
  by (simp add: round64_numeral)
     (rule round64_exact [where m = 1 and k = "- 1"], simp_all add: power_int_minus)

text \<open>
  C10, as stated, fails: with current rates \<open>{USD: 1, NOK: 2}\<close> the close \<open>2\<close> to the
  \<open>1023\<close> doubles to \<open>2\<close> to the \<open>1024\<close>, which overflows to \<open>Infinity\<close>, and the way back
  (times 0.5) leaves \<open>Infinity\<close>.
\<close>

theorem round_trip_overflow_counterexample:
  "map close (convertDataToCurrency64 (usdNokAt 2) utcDateString
       (convertDataToCurrency64 (usdNokAt 2) utcDateString [pt 0 (2 ^ 1023)] ''NOK'' ''USD'' None)
       ''USD'' ''NOK'' None) = [PInf] \<and>
   map close [pt 0 (2 ^ 1023)] = [Num (2 ^ 1023)]"
  by (simp add: convertDataToCurrency64_def Let_def usdNokAt_def rateOf_def pt_def
        div64_def mul64_def scalePoint64_def round64_2 round64_pow1024 [simplified])

lemma moderate_nonzero: "moderate x \<Longrightarrow> x \<noteq> 0"
proof
  assume "moderate x" and "x = 0"
  then have "(2::real) powi (- 300) \<le> 0" by (simp add: moderate_def)
  moreover have "0 < (2::real) powi (- 300)" by simp
  ultimately show False by linarith
qed

lemma abs_mult_bounds:
  fixes x y :: real
  assumes "l1 \<le> \<bar>x\<bar>" "\<bar>x\<bar> \<le> h1" "l2 \<le> \<bar>y\<bar>" "\<bar>y\<bar> \<le> h2" "0 \<le> l1" "0 \<le> l2"
  shows "l1 * l2 \<le> \<bar>x * y\<bar> \<and> \<bar>x * y\<bar> \<le> h1 * h2"
proof -
  have "l1 * l2 \<le> \<bar>x\<bar> * \<bar>y\<bar>" using assms by (intro mult_mono) simp_all
  moreover have "\<bar>x\<bar> * \<bar>y\<bar> \<le> h1 * h2" using assms by (intro mult_mono) simp_all
  ultimately show ?thesis by (simp add: abs_mult)
qed

lemma moderate_div:
  assumes "moderate a" "moderate b"
  shows "2 powi (- 600) \<le> \<bar>b / a\<bar> \<and> \<bar>b / a\<bar> \<le> 2 powi 600"
proof -
  from assms(1) have a0: "0 < \<bar>a\<bar>" using moderate_nonzero by simp
  have "\<bar>b\<bar> / \<bar>a\<bar> \<le> 2 powi 300 / 2 powi (- 300)"
    using assms a0 by (intro frac_le) (simp_all add: moderate_def)
  moreover have "2 powi (- 300) / 2 powi 300 \<le> \<bar>b\<bar> / \<bar>a\<bar>"
    using assms a0 by (intro frac_le) (simp_all add: moderate_def)
  moreover have "(2::real) powi 300 / 2 powi (- 300) = 2 powi 600"
    by (simp add: power_int_minus)
  moreover have "(2::real) powi (- 300) / 2 powi 300 = 2 powi (- 600)"
    by (simp add: power_int_minus)
  ultimately show ?thesis by (simp add: abs_divide)
qed

lemma rel_step:
  fixes p :: real
  assumes "\<bar>p - 1\<bar> \<le> E" "E \<le> 1" "\<bar>\<delta>\<bar> \<le> u"
  shows "\<bar>p * (1 + \<delta>) - 1\<bar> \<le> E + 2 * u"
proof -
  from assms have "\<bar>p\<bar> \<le> 2" by linarith
  moreover from assms have "0 \<le> u" by linarith
  ultimately have "\<bar>p\<bar> * \<bar>\<delta>\<bar> \<le> 2 * u"
    using assms(3) by (intro mult_mono) simp_all
  then have "\<bar>p * \<delta>\<bar> \<le> 2 * u" by (simp add: abs_mult)
  moreover have "p * (1 + \<delta>) - 1 = (p - 1) + p * \<delta>" by (simp add: algebra_simps)
  ultimately show ?thesis using assms(1) by linarith
qed

lemma round64_rel_wide:
  assumes "l \<le> \<bar>x\<bar> \<and> \<bar>x\<bar> \<le> h" and "2 powi (- 1022) \<le> l" and "h \<le> 2 powi 1023"
  obtains \<delta> where "\<bar>\<delta>\<bar> \<le> 2 powi (- 53)" and "round64 x = Num (x * (1 + \<delta>))"
proof -
  from assms have "2 powi (- 1022) \<le> \<bar>x\<bar>" and "\<bar>x\<bar> \<le> 2 powi 1023" by linarith+
  from round64_rel [OF this] that show ?thesis by blast
qed

lemma round64_rate:
  assumes "moderate a" "moderate b"
  obtains \<delta> where "\<bar>\<delta>\<bar> \<le> 2 powi (- 53)" and "round64 (b / a) = Num (b / a * (1 + \<delta>))"
proof -
  have "(2::real) powi (- 1022) \<le> 2 powi (- 600)" and "(2::real) powi 600 \<le> 2 powi 1023"
    by simp_all
  from round64_rel_wide [OF moderate_div [OF assms] this] that show ?thesis by blast
qed

lemma round_trip_moderate:
  assumes ma: "moderate a" and mb: "moderate b" and mc: "moderate c"
  shows "\<exists>c'. mul64 (mul64 (Num c) (div64 (Num b) (Num a))) (div64 (Num a) (Num b)) = Num c' \<and>
              \<bar>c' - c\<bar> \<le> 2 powi (- 50) * \<bar>c\<bar>"
proof -
  define u :: real where "u = 2 powi (- 53)"
  have u8: "8 * u = 2 powi (- 50)" by (simp add: u_def power_int_minus)
  have u_small: "u \<le> 1 / 16" by (simp add: u_def power_int_minus)
  have u0: "0 \<le> u" by (simp add: u_def)
  from ma mb have a0: "a \<noteq> 0" and b0: "b \<noteq> 0" by (simp_all add: moderate_nonzero)
  obtain d1 where d1: "\<bar>d1\<bar> \<le> u" and r1: "round64 (b / a) = Num (b / a * (1 + d1))"
    unfolding u_def by (rule round64_rate [OF ma mb])
  obtain d2 where d2: "\<bar>d2\<bar> \<le> u" and r2: "round64 (a / b) = Num (a / b * (1 + d2))"
    unfolding u_def by (rule round64_rate [OF mb ma])
  have p1: "\<bar>(1 + d1) - 1\<bar> \<le> u" using d1 by simp
  from d1 u_small have b1: "1 / 2 \<le> \<bar>1 + d1\<bar>" "\<bar>1 + d1\<bar> \<le> 2" by linarith+
  have m1: "2 powi (- 300) * 2 powi (- 600) \<le> \<bar>c * (b / a)\<bar> \<and> \<bar>c * (b / a)\<bar> \<le> 2 powi 300 * 2 powi 600"
    using mc moderate_div [OF ma mb] by (intro abs_mult_bounds) (simp_all add: moderate_def)
  have m3: "2 powi (- 300) * 2 powi (- 600) * (1 / 2) \<le> \<bar>c * (b / a) * (1 + d1)\<bar> \<and>
        \<bar>c * (b / a) * (1 + d1)\<bar> \<le> 2 powi 300 * 2 powi 600 * 2"
    using m1 b1 by (intro abs_mult_bounds) simp_all
  have "(2::real) powi (- 1022) \<le> 2 powi (- 300) * 2 powi (- 600) * (1 / 2)"
    and "(2::real) powi 300 * 2 powi 600 * 2 \<le> 2 powi 1023"
    by (simp_all add: power_int_minus)
  from round64_rel_wide [OF m3 this]
  obtain d3 where d3: "\<bar>d3\<bar> \<le> u"
    and r3: "round64 (c * (b / a) * (1 + d1)) = Num (c * (b / a) * (1 + d1) * (1 + d3))"
    unfolding u_def by blast
  define P3 where "P3 = (1 + d1) * (1 + d3) * (1 + d2)"
  from u_small have e1: "u \<le> 1" and e2: "u + 2 * u \<le> 1" and e3: "u + 2 * u + 2 * u \<le> 1"
    by linarith+
  have p2: "\<bar>(1 + d1) * (1 + d3) - 1\<bar> \<le> u + 2 * u"
    by (rule rel_step [OF p1 e1 d3])
  have p3: "\<bar>P3 - 1\<bar> \<le> u + 2 * u + 2 * u"
    unfolding P3_def by (rule rel_step [OF p2 e2 d2])
  have x4: "c * (b / a) * (1 + d1) * (1 + d3) * (a / b * (1 + d2)) = c * P3"
    using a0 b0 by (simp add: P3_def)
  from p3 u_small have b3: "1 / 2 \<le> \<bar>P3\<bar>" "\<bar>P3\<bar> \<le> 2" by linarith+
  have m4: "2 powi (- 300) * (1 / 2) \<le> \<bar>c * P3\<bar> \<and> \<bar>c * P3\<bar> \<le> 2 powi 300 * 2"
    using mc b3 by (intro abs_mult_bounds) (simp_all add: moderate_def)
  have "(2::real) powi (- 1022) \<le> 2 powi (- 300) * (1 / 2)"
    and "(2::real) powi 300 * 2 \<le> 2 powi 1023"
    by (simp_all add: power_int_minus)
  from round64_rel_wide [OF m4 this]
  obtain d4 where d4: "\<bar>d4\<bar> \<le> u"
    and r4: "round64 (c * P3) = Num (c * P3 * (1 + d4))"
    unfolding u_def by blast
  have p4: "\<bar>P3 * (1 + d4) - 1\<bar> \<le> u + 2 * u + 2 * u + 2 * u"
    by (rule rel_step [OF p3 e3 d4])
  with u0 u8 have p4': "\<bar>P3 * (1 + d4) - 1\<bar> \<le> 2 powi (- 50)" by linarith
  have s1: "div64 (Num b) (Num a) = Num (b / a * (1 + d1))"
    using a0 by (simp add: div64_def r1)
  have s2: "div64 (Num a) (Num b) = Num (a / b * (1 + d2))"
    using b0 by (simp add: div64_def r2)
  have s3: "mul64 (Num c) (Num (b / a * (1 + d1))) = Num (c * (b / a) * (1 + d1) * (1 + d3))"
    by (simp only: mul64_def jsmul.simps b64.simps mult.assoc [symmetric] r3)
  have s4: "mul64 (Num (c * (b / a) * (1 + d1) * (1 + d3))) (Num (a / b * (1 + d2))) =
            Num (c * P3 * (1 + d4))"
    by (simp only: mul64_def jsmul.simps b64.simps x4 r4)
  have val: "mul64 (mul64 (Num c) (div64 (Num b) (Num a))) (div64 (Num a) (Num b)) =
             Num (c * P3 * (1 + d4))"
    by (simp only: s1 s2 s3 s4)
  have "\<bar>c * P3 * (1 + d4) - c\<bar> = \<bar>c\<bar> * \<bar>P3 * (1 + d4) - 1\<bar>"
    by (simp add: abs_mult [symmetric] algebra_simps)
  also have "\<dots> \<le> \<bar>c\<bar> * 2 powi (- 50)"
    using p4' by (intro mult_left_mono) simp_all
  finally have "\<bar>c * P3 * (1 + d4) - c\<bar> \<le> 2 powi (- 50) * \<bar>c\<bar>" by (simp add: mult.commute)
  with val show ?thesis by blast
qed

lemma round_trip_zero:
  assumes ma: "moderate a" and mb: "moderate b"
  shows "mul64 (mul64 (Num 0) (div64 (Num b) (Num a))) (div64 (Num a) (Num b)) = Num 0"
proof -
  from ma mb have a0: "a \<noteq> 0" and b0: "b \<noteq> 0" by (simp_all add: moderate_nonzero)
  obtain d1 where r1: "round64 (b / a) = Num (b / a * (1 + d1))"
    by (rule round64_rate [OF ma mb])
  obtain d2 where r2: "round64 (a / b) = Num (a / b * (1 + d2))"
    by (rule round64_rate [OF mb ma])
  have z: "round64 0 = Num 0" by (simp add: round64_def)
  show ?thesis using a0 b0 by (simp add: mul64_def div64_def r1 r2 z)
qed

lemma round_trip_close:
  assumes ma: "moderate a" and mb: "moderate b" and mc: "c = 0 \<or> moderate c"
  shows "\<exists>c'. mul64 (mul64 (Num c) (div64 (Num b) (Num a))) (div64 (Num a) (Num b)) = Num c' \<and>
              \<bar>c' - c\<bar> \<le> 2 powi (- 50) * \<bar>c\<bar>"
  using mc
proof
  assume "c = 0"
  with round_trip_zero [OF ma mb] show ?thesis by simp
next
  assume "moderate c"
  from round_trip_moderate [OF ma mb this] show ?thesis .
qed

text \<open>
  C10, amended. With no rate table in use and two different currencies \<open>A\<close> and \<open>B\<close>
  whose current rates are of moderate magnitude, converting from \<open>A\<close> to \<open>B\<close> and back
  from \<open>B\<close> to \<open>A\<close> in binary64 gives, for every close that is 0 or of moderate
  magnitude, a finite close within relative error \<open>2\<close> to the \<open>-50\<close> of the input (four
  roundings of at most \<open>2\<close> to the \<open>-53\<close> each).
\<close>

theorem static_round_trip_tolerance:
  assumes hr: "historicalRates g = []" and ab: "A \<noteq> B"
    and ra: "currencyRates g A = Some (Num a)" and ma: "moderate a"
    and rb: "currencyRates g B = Some (Num b)" and mb: "moderate b"
    and cl: "\<forall>p\<in>set data. \<exists>c. close p = Num c \<and> (c = 0 \<or> moderate c)"
  shows "length (convertDataToCurrency64 g tds (convertDataToCurrency64 g tds data B A ov1) A B ov2) =
           length data \<and>
         (\<forall>i<length data. \<exists>c c'.
            close (data ! i) = Num c \<and>
            close (convertDataToCurrency64 g tds (convertDataToCurrency64 g tds data B A ov1) A B ov2 ! i) =
              Num c' \<and>
            \<bar>c' - c\<bar> \<le> 2 powi (- 50) * \<bar>c\<bar>)"
proof -
  let ?r1 = "div64 (Num b) (Num a)" and ?r2 = "div64 (Num a) (Num b)"
  have rt: "convertDataToCurrency64 g tds (convertDataToCurrency64 g tds data B A ov1) A B ov2 =
            map (\<lambda>p. scalePoint64 ?r2 (scalePoint64 ?r1 p)) data"
    using hr ab ra rb by (simp add: convertDataToCurrency64_def Let_def rateOf_def comp_def)
  have "\<exists>c c'. close (data ! i) = Num c \<and>
          close (scalePoint64 ?r2 (scalePoint64 ?r1 (data ! i))) = Num c' \<and>
          \<bar>c' - c\<bar> \<le> 2 powi (- 50) * \<bar>c\<bar>"
    if "i < length data" for i
  proof -
    from that cl obtain c where c: "close (data ! i) = Num c" "c = 0 \<or> moderate c"
      using nth_mem by blast
    from round_trip_close [OF ma mb c(2)] c(1) show ?thesis
      by (simp add: scalePoint64_def)
  qed
  with rt show ?thesis by simp
qed

theorem static_round_trip_tolerance_witness:
  "\<exists>c'. close (convertDataToCurrency64 (usdNok []) utcDateString
             (convertDataToCurrency64 (usdNok []) utcDateString [pt 0 100, pt 86400000 110] ''NOK'' ''USD'' None)
             ''USD'' ''NOK'' None ! 1) = Num c' \<and>
        \<bar>c' - 110\<bar> \<le> 2 powi (- 50) * 110"
proof -
  have hr: "historicalRates (usdNok []) = []" by (simp add: usdNok_def)
  have ab: "''USD'' \<noteq> ''NOK''" by simp
  have ra: "currencyRates (usdNok []) ''USD'' = Some (Num 1)" by (simp add: usdNok_def)
  have rb: "currencyRates (usdNok []) ''NOK'' = Some (Num 10)" by (simp add: usdNok_def)
  have ma: "moderate 1" and mb: "moderate 10"
    by (simp_all add: moderate_def power_int_minus)
  have cl: "\<forall>p\<in>set [pt 0 100, pt 86400000 110]. \<exists>c. close p = Num c \<and> (c = 0 \<or> moderate c)"
    by (simp add: pt_def moderate_def power_int_minus)
  let ?rt = "convertDataToCurrency64 (usdNok []) utcDateString
             (convertDataToCurrency64 (usdNok []) utcDateString [pt 0 100, pt 86400000 110] ''NOK'' ''USD'' None)
             ''USD'' ''NOK'' None"
  from static_round_trip_tolerance [OF hr ab ra ma rb mb cl, of utcDateString None None]
  have "\<forall>i<length [pt 0 100, pt 86400000 110]. \<exists>c c'.
          close ([pt 0 100, pt 86400000 110] ! i) = Num c \<and> close (?rt ! i) = Num c' \<and>
          \<bar>c' - c\<bar> \<le> 2 powi (- 50) * \<bar>c\<bar>"
    by (rule conjunct2)
  then have "1 < length [pt 0 100, pt 86400000 110] \<longrightarrow> (\<exists>c c'.
          close ([pt 0 100, pt 86400000 110] ! 1) = Num c \<and> close (?rt ! 1) = Num c' \<and>
          \<bar>c' - c\<bar> \<le> 2 powi (- 50) * \<bar>c\<bar>)"
    by (rule spec)
  then obtain c c' where c: "close ([pt 0 100, pt 86400000 110] ! 1) = Num c"
    and c': "close (?rt ! 1) = Num c'" and b: "\<bar>c' - c\<bar> \<le> 2 powi (- 50) * \<bar>c\<bar>"
    by auto
  from c have "c = 110" by (simp add: pt_def)
  with c' b show ?thesis by auto
qed

subsection \<open>Conversion with a rate table\<close>

text \<open>\<open>scalePoint r p\<close> is \<open>p\<close> with each of its five price fields multiplied by \<open>r\<close>.\<close>

lemma scalePoint_fields:
  "open' (scalePoint r p) = jsmul (open' p) r \<and>
   high (scalePoint r p) = jsmul (high p) r \<and>
   low (scalePoint r p) = jsmul (low p) r \<and>
   close (scalePoint r p) = jsmul (close p) r \<and>
   adjClose (scalePoint r p) = jsmul (adjClose p) r"
  by (simp add: scalePoint_def)

text \<open>
  C5, as stated, fails: with a rate table loaded and the pair USD to EUR, the close of
  100 is multiplied by the static rate 2, not by the looked-up rate 10.
\<close>

theorem convert_other_pair_counterexample:
  "historicalRates (usdEur gapTable) \<noteq> [] \<and>
   findClosestRate (usdEur gapTable) utcDateString (date (pt 0 100)) = Num 10 \<and>
   close (convertDataToCurrency (usdEur gapTable) utcDateString [pt 0 100] ''EUR'' ''USD'' None ! 0) = Num 200 \<and>
   close (convertDataToCurrency (usdEur gapTable) utcDateString [pt 0 100] ''EUR'' ''USD'' None ! 0) \<noteq>
     jsmul (close (pt 0 100)) (findClosestRate (usdEur gapTable) utcDateString (date (pt 0 100)))"
  by (simp add: convertDataToCurrency_def findClosestRate_def usdEur_def gapTable_def
        utcDateString_def pt_def scalePoint_def rateOf_def)

text \<open>
  C5, amended. For a pair with different currencies: when the rate table is non-empty
  and the pair is USD to NOK, every point is scaled by the rate \<open>findClosestRate\<close> gives
  for its date, except that the first point is scaled by \<open>startRateOverride\<close> when that
  is given and truthy (not 0, not \<open>NaN\<close>); in every other case every point is scaled by
  the static rate \<open>currencyRates[target] / currencyRates[source]\<close>.
\<close>

theorem convert_rates:
  assumes ts: "t \<noteq> s"
  shows "(historicalRates g \<noteq> [] \<and> t = ''NOK'' \<and> s = ''USD'' \<longrightarrow>
           (\<forall>i<length data.
              convertDataToCurrency g tds data t s ov ! i =
              scalePoint (if i = 0 \<and> truthy ov then the ov
                          else findClosestRate g tds (date (data ! i))) (data ! i))) \<and>
         (\<not> (historicalRates g \<noteq> [] \<and> t = ''NOK'' \<and> s = ''USD'') \<longrightarrow>
           (\<forall>i<length data.
              convertDataToCurrency g tds data t s ov ! i =
              scalePoint (jsdiv (rateOf g t) (rateOf g s)) (data ! i)))"
proof -
  have tr: "truthy ov \<Longrightarrow> (case ov of Some r \<Rightarrow> r | None \<Rightarrow> NaN) = the ov"
    by (cases ov) simp_all
  show ?thesis
    using ts tr
    by (auto simp add: convertDataToCurrency_def Let_def nth_enumerate_eq pointRate_def)
qed

theorem convert_rates_witness:
  "close (convertDataToCurrency (usdNok gapTable) utcDateString
            [pt 0 100, pt 86400000 110, pt 172800000 120] ''NOK'' ''USD'' (Some (Num 11)) ! 0) = Num 1100 \<and>
   close (convertDataToCurrency (usdNok gapTable) utcDateString
            [pt 0 100, pt 86400000 110, pt 172800000 120] ''NOK'' ''USD'' (Some (Num 11)) ! 2) = Num 1440 \<and>
   close (convertDataToCurrency (usdEur gapTable) utcDateString
            [pt 0 100, pt 86400000 110, pt 172800000 120] ''EUR'' ''USD'' (Some (Num 11)) ! 2) = Num 240"
proof -
  have nok: "''NOK'' \<noteq> ''USD''" and eur: "''EUR'' \<noteq> ''USD''" by simp_all
  from convert_rates [OF nok, of "usdNok gapTable" "[pt 0 100, pt 86400000 110, pt 172800000 120]"
         utcDateString "Some (Num 11)"]
       convert_rates [OF eur, of "usdEur gapTable" "[pt 0 100, pt 86400000 110, pt 172800000 120]"
         utcDateString "Some (Num 11)"]
  show ?thesis
    by (simp add: convertDataToCurrency_def Let_def pointRate_def findClosestRate_def
          usdNok_def usdEur_def gapTable_def utcDateString_def scalePoint_def pt_def rateOf_def)
qed

subsection \<open>Fixed-rate series\<close>

text \<open>
  C2, as stated, fails: the table has no entry on the calendar day of the first point,
  the lookup resolves the nearest rate 10, and the fixed-rate series is empty instead of
  holding \<open>close * 10\<close>.
\<close>

theorem fixed_rate_no_match_counterexample:
  "findClosestRate (usdNok gapTable) utcDateString (date (pt 86400000 100)) = Num 10 \<and>
   calculateIndexWithoutCurrencyChanges (usdNok gapTable) utcDateString [pt 86400000 100] ''NOK'' ''USD'' = Inr []"
  by (simp add: calculateIndexWithoutCurrencyChanges_def findClosestRate_def usdNok_def
        gapTable_def utcDateString_def pt_def)

text \<open>
  C2, amended. For a non-empty series: when the table has an entry on the calendar day
  of the first point, the result has one element per point, with the point's date and
  \<open>close[i] * startRate\<close>, where \<open>startRate\<close> is the rate of the first such entry; when
  the table has no entry on that day (an empty table included), the result is the empty
  series, and nothing is thrown.
\<close>

theorem fixed_rate_series:
  assumes ne: "data \<noteq> []"
  shows "(\<forall>e. find (\<lambda>r. tds (rdate r) = tds (date (data ! 0))) (historicalRates g) = Some e \<longrightarrow>
            (\<exists>out. calculateIndexWithoutCurrencyChanges g tds data t s = Inr out \<and>
                   length out = length data \<and>
                   (\<forall>i<length data. vdate (out ! i) = date (data ! i) \<and>
                                     val (out ! i) = jsmul (close (data ! i)) (rate e)))) \<and>
         (find (\<lambda>r. tds (rdate r) = tds (date (data ! 0))) (historicalRates g) = None \<longrightarrow>
            calculateIndexWithoutCurrencyChanges g tds data t s = Inr [])"
proof -
  let ?find = "find (\<lambda>r. tds (rdate r) = tds (date (data ! 0))) (historicalRates g)"
  let ?res = "calculateIndexWithoutCurrencyChanges g tds data t s"
  from ne obtain d0 rest where d: "data = d0 # rest" by (cases data) auto
  have some: "?res = Inr (map (\<lambda>item. \<lparr>vdate = date item, val = jsmul (close item) (rate e)\<rparr>) data)"
    if "?find = Some e" for e
  proof -
    from that have "historicalRates g \<noteq> []" by auto
    with that show ?thesis
      by (simp add: calculateIndexWithoutCurrencyChanges_def d Let_def)
  qed
  have none: "?res = Inr []" if "?find = None"
    using that by (simp add: calculateIndexWithoutCurrencyChanges_def d)
  from some none show ?thesis by simp
qed

theorem fixed_rate_series_witness:
  "calculateIndexWithoutCurrencyChanges (usdNok gapTable) utcDateString
     [pt 0 100, pt 86400000 110] ''NOK'' ''USD'' =
     Inr [\<lparr>vdate = 0, val = Num 1000\<rparr>, \<lparr>vdate = 86400000, val = Num 1100\<rparr>] \<and>
   calculateIndexWithoutCurrencyChanges (usdNok gapTable) utcDateString
     [pt 86400000 110] ''NOK'' ''USD'' = Inr []"
proof -
  have n1: "[pt 0 100, pt 86400000 110] \<noteq> []" and n2: "[pt 86400000 110] \<noteq> []" by simp_all
  from fixed_rate_series [OF n1, of utcDateString "usdNok gapTable" "''NOK''" "''USD''"]
       fixed_rate_series [OF n2, of utcDateString "usdNok gapTable" "''NOK''" "''USD''"]
  show ?thesis
    by (simp add: calculateIndexWithoutCurrencyChanges_def Let_def usdNok_def gapTable_def
          utcDateString_def pt_def)
qed

subsection \<open>Empty rate table\<close>

text \<open>
  C4, as stated, fails: on an empty table \<open>findClosestRate\<close> returns the static rate 10,
  a number like the one a table with that rate returns; the caller sees no difference.
\<close>

theorem empty_table_fallback_counterexample:
  "historicalRates (usdNok []) = [] \<and>
   findClosestRate (usdNok []) utcDateString 0 = Num 10 \<and>
   findClosestRate (usdNok [\<lparr>rdate = 0, rate = Num 10\<rparr>]) utcDateString 0 = Num 10"
  by (simp add: findClosestRate_def usdNok_def utcDateString_def rateOf_def)

text \<open>
  C4, amended. When the rate table is empty, \<open>findClosestRate\<close> returns the static current
  rate \<open>currencyRates.NOK / currencyRates.USD\<close> as its result, and
  \<open>calculateIndexWithoutCurrencyChanges\<close> returns the empty series; neither raises an
  error.
\<close>

theorem empty_table_fallback:
  assumes "historicalRates g = []"
  shows "findClosestRate g tds d = jsdiv (rateOf g ''NOK'') (rateOf g ''USD'') \<and>
         calculateIndexWithoutCurrencyChanges g tds data t s = Inr []"
  using assms by (simp add: findClosestRate_def calculateIndexWithoutCurrencyChanges_def)

theorem empty_table_fallback_witness:
  "findClosestRate (usdNok []) utcDateString 86400000 = Num 10 \<and>
   calculateIndexWithoutCurrencyChanges (usdNok []) utcDateString [pt 0 100] ''NOK'' ''USD'' = Inr []"
proof -
  have e: "historicalRates (usdNok []) = []" by (simp add: usdNok_def)
  from empty_table_fallback [OF e, of utcDateString 86400000 "[pt 0 100]" "''NOK''" "''USD''"]
  show ?thesis by (simp add: rateOf_def usdNok_def)
qed

subsection \<open>Volatility\<close>









subsection \<open>Zero starting price\<close>

lemma jsdiv_zero_not_finite: "\<not> isFinite (jsdiv x (Num 0))"
  by (cases x) simp_all

lemma jsdiv_NaN_not_finite: "\<not> isFinite (jsdiv x NaN)"
  by (cases x) simp_all

lemma jsmul_not_finite: "\<not> isFinite x \<Longrightarrow> \<not> isFinite (jsmul x y)"
  by (cases x; cases y) simp_all

lemma jssub_not_finite: "\<not> isFinite x \<Longrightarrow> \<not> isFinite (jssub x y)"
  by (cases x; cases y) (simp_all add: jssub_def)

lemma jsmul_zero_cases: "jsmul (Num 0) r = Num 0 \<or> jsmul (Num 0) r = NaN"
  by (cases r) simp_all

lemma calculateCurrencyImpact_zero_start:
  assumes ts: "t \<noteq> s" and ne: "data \<noteq> []" and z: "close (data ! 0) = Num 0"
  shows "\<exists>x. calculateCurrencyImpact g data t s = Inr x \<and> \<not> isFinite x"
proof -
  from ne obtain d0 rest where d: "data = d0 # rest" by (cases data) auto
  with z have c0: "close d0 = Num 0" by simp
  let ?total = "foldl (\<lambda>sum item. jsadd sum (impact item)) (Num 0)
                  (calculateCurrencyImpactOverTime g data t s)"
  let ?start = "jsmul (Num 0) (jsdiv (rateOf g t) (rateOf g s))"
  have res: "calculateCurrencyImpact g data t s = Inr (jsmul (jsdiv ?total ?start) (Num 100))"
    using ts by (simp add: calculateCurrencyImpact_def Let_def d c0)
  have "\<not> isFinite (jsdiv ?total ?start)"
    using jsmul_zero_cases [of "jsdiv (rateOf g t) (rateOf g s)"]
    by (auto simp add: jsdiv_zero_not_finite jsdiv_NaN_not_finite)
  then have "\<not> isFinite (jsmul (jsdiv ?total ?start) (Num 100))"
    by (rule jsmul_not_finite)
  with res show ?thesis by simp
qed

lemma calculateCurrencyImpact_returns:
  "data \<noteq> [] \<Longrightarrow> \<exists>x. calculateCurrencyImpact g data t s = Inr x"
  by (cases data) (simp_all add: calculateCurrencyImpact_def Let_def)

lemma slice_nonempty:
  "0 \<le> a \<Longrightarrow> a < b \<Longrightarrow> b \<le> int (length xs) \<Longrightarrow> slice xs a b \<noteq> []"
  by (simp add: slice_def Let_def min_def)

lemma performanceRow_zero_start:
  assumes lt: "max 0 (int (length cur) - 1 - days) < int (length cur) - 1"
    and z: "close (convertDataToCurrency g tds cur sel idx None ! nat (max 0 (int (length cur) - 1 - days))) = Num 0"
  shows "\<exists>row. performanceRow g cur (convertDataToCurrency g tds cur sel idx None) sel idx days = Inr (Some row) \<and>
               \<not> isFinite (rowTotalReturn row) \<and> \<not> isFinite (rowLocalReturn row)"
proof -
  let ?conv = "convertDataToCurrency g tds cur sel idx None"
  let ?e = "int (length cur) - 1"
  let ?s = "max 0 (?e - days)"
  have len: "length ?conv = length cur"
    by (simp add: convertDataToCurrency_def Let_def)
  have "slice cur ?s (?e + 1) \<noteq> []"
    using lt by (intro slice_nonempty) auto
  then obtain x where ci: "calculateCurrencyImpact g (slice cur ?s (?e + 1)) sel idx = Inr x"
    using calculateCurrencyImpact_returns by blast
  let ?total = "jsmul (jsdiv (jssub (close (?conv ! nat ?e)) (Num 0)) (Num 0)) (Num 100)"
  have row: "performanceRow g cur ?conv sel idx days =
             Inr (Some \<lparr>rowTotalReturn = ?total, rowCurrencyImpact = x, rowLocalReturn = jssub ?total x\<rparr>)"
    using lt z ci by (simp add: performanceRow_def Let_def len)
  have nf: "\<not> isFinite ?total"
    by (intro jsmul_not_finite jsdiv_zero_not_finite)
  then have "\<not> isFinite (jssub ?total x)" by (rule jssub_not_finite)
  with row nf show ?thesis by simp
qed

text \<open>
  C8, as stated, fails: with a first close of 0 the percentages of every row of the
  performance table are \<open>Infinity\<close>, \<open>Infinity\<close> and \<open>NaN\<close>, returned as ordinary results.
\<close>

theorem zero_start_price_counterexample:
  "close ([pt 0 0, pt 86400000 5] ! 0) = Num 0 \<and>
   calculateCurrencyImpact (usdNok []) [pt 0 0, pt 86400000 5] ''NOK'' ''USD'' = Inr PInf \<and>
   updatePerformanceTable (usdNok []) utcDateString [pt 0 0, pt 86400000 5] ''NOK'' ''USD'' =
     Inr (replicate 5 (Some \<lparr>rowTotalReturn = PInf, rowCurrencyImpact = PInf, rowLocalReturn = NaN\<rparr>))"
proof -
  have ci: "calculateCurrencyImpact (usdNok []) [pt 0 0, pt 86400000 5] ''NOK'' ''USD'' = Inr PInf"
    by (simp add: calculateCurrencyImpact_def calculateCurrencyImpactOverTime_def Let_def
          usdNok_def pt_def rateOf_def jssub_def)
  have conv: "convertDataToCurrency (usdNok []) utcDateString [pt 0 0, pt 86400000 5] ''NOK'' ''USD'' None =
              [pt 0 0, pt 86400000 50]"
    by (simp add: convertDataToCurrency_def Let_def usdNok_def pt_def rateOf_def scalePoint_def)
  have sl: "slice [pt 0 0, pt 86400000 5] 0 2 = [pt 0 0, pt 86400000 5]"
    by (simp add: slice_def Let_def)
  have row: "performanceRow (usdNok []) [pt 0 0, pt 86400000 5] [pt 0 0, pt 86400000 50] ''NOK'' ''USD'' days =
        Inr (Some \<lparr>rowTotalReturn = PInf, rowCurrencyImpact = PInf, rowLocalReturn = NaN\<rparr>)"
    if "1 \<le> days" for days
    using that by (simp add: performanceRow_def Let_def sl ci max_def) (simp add: pt_def jssub_def)
  show ?thesis
    by (simp add: ci updatePerformanceTable_def Let_def conv row numeral_eq_Suc) (simp add: pt_def)
qed

text \<open>
  C8, amended. A zero starting price raises no error. \<open>calculateCurrencyImpact\<close> on a
  non-empty series with first close 0 and different currencies returns a value that
  is not finite (\<open>Infinity\<close>, \<open>-Infinity\<close> or \<open>NaN\<close>); a row of the performance table whose
  converted start price is 0 is produced, and its total return and local return are not
  finite.
\<close>

theorem zero_start_price_no_error:
  "(t \<noteq> s \<and> data \<noteq> [] \<and> close (data ! 0) = Num 0 \<longrightarrow>
      (\<exists>x. calculateCurrencyImpact g data t s = Inr x \<and> \<not> isFinite x)) \<and>
   (max 0 (int (length cur) - 1 - days) < int (length cur) - 1 \<and>
    close (convertDataToCurrency g tds cur sel idx None ! nat (max 0 (int (length cur) - 1 - days))) = Num 0 \<longrightarrow>
      (\<exists>row. performanceRow g cur (convertDataToCurrency g tds cur sel idx None) sel idx days = Inr (Some row) \<and>
             \<not> isFinite (rowTotalReturn row) \<and> \<not> isFinite (rowLocalReturn row)))"
  using calculateCurrencyImpact_zero_start performanceRow_zero_start by blast

theorem zero_start_price_no_error_witness:
  "(\<exists>x. calculateCurrencyImpact (usdNok []) [pt 0 0, pt 86400000 5] ''NOK'' ''USD'' = Inr x \<and> \<not> isFinite x) \<and>
   (\<exists>row. performanceRow (usdNok []) [pt 0 0, pt 86400000 5]
             (convertDataToCurrency (usdNok []) utcDateString [pt 0 0, pt 86400000 5] ''NOK'' ''USD'' None)
             ''NOK'' ''USD'' 7 = Inr (Some row) \<and>
           \<not> isFinite (rowTotalReturn row) \<and> \<not> isFinite (rowLocalReturn row))"
proof -
  have h1: "''NOK'' \<noteq> ''USD'' \<and> [pt 0 0, pt 86400000 5] \<noteq> [] \<and>
            close ([pt 0 0, pt 86400000 5] ! 0) = Num 0"
    by (simp add: pt_def)
  have h2: "max 0 (int (length [pt 0 0, pt 86400000 5]) - 1 - 7) < int (length [pt 0 0, pt 86400000 5]) - 1 \<and>
            close (convertDataToCurrency (usdNok []) utcDateString [pt 0 0, pt 86400000 5] ''NOK'' ''USD'' None !
                     nat (max 0 (int (length [pt 0 0, pt 86400000 5]) - 1 - 7))) = Num 0"
    by (simp add: convertDataToCurrency_def Let_def usdNok_def pt_def rateOf_def scalePoint_def)
  from zero_start_price_no_error [where t = "''NOK''" and s = "''USD''"
      and data = "[pt 0 0, pt 86400000 5]" and g = "usdNok []" and cur = "[pt 0 0, pt 86400000 5]"
      and days = 7 and tds = utcDateString and sel = "''NOK''" and idx = "''USD''"] h1 h2
  show ?thesis by blast
qed

end
